theory Spec2Isabelle
  imports Main
begin

section \<open>Data model of plugin-phone's Call\<close>

text \<open>
  The Call of \<^verbatim>\<open>packages/plugin-phone/src/call.js\<close> keeps a snapshot of the remote
  session document (the locus), a correlation id, a facing mode, two in-flight flags and
  a media adapter. The session documents are JSON objects; only the fields that call.js
  reads are kept. A JavaScript value that may be \<^verbatim>\<open>undefined\<close> or \<^verbatim>\<open>null\<close> is an
  \<open>option\<close>. The private methods \<^verbatim>\<open>_setLocus\<close>, \<^verbatim>\<open>_fetchExpectedLocus\<close>,
  \<^verbatim>\<open>_join\<close> and \<^verbatim>\<open>_hangup\<close> are \<open>setLocus\<close>, \<open>fetchExpectedLocus\<close>,
  \<open>internal_join\<close> and \<open>internal_hangup\<close> here.
\<close>

datatype error = Error string

type_synonym stream = string

record device =
  device_url :: string
  device_correlationId :: "string option"
  device_remoteSdp :: "string option"

record participant =
  state :: string
  audioStatus :: string
  videoStatus :: string
  devices :: "device list"

record locus =
  url :: string
  sequence :: nat
  self :: "participant option"
  locus_correlationId :: "string option"

text \<open>
  \<open>sequence\<close> stands for the part of the document that only the comparator reads;
  call.js never looks at it.
\<close>

text \<open>
  A media constraint as call.js tests it: falsy (\<^verbatim>\<open>false\<close>, \<^verbatim>\<open>undefined\<close>), the
  value \<^verbatim>\<open>true\<close>, or an object, of which only \<^verbatim>\<open>facingMode.exact\<close> is read.
\<close>

datatype constraint = Falsy | IsTrue | Obj "string option"

record media =
  audio :: constraint
  video :: constraint
  offerToReceiveAudio :: bool
  offerToReceiveVideo :: bool
  audioConstraint :: constraint
  videoConstraint :: constraint
  media_localMediaStream :: "stream option"
  peer :: bool

text \<open>
  The effects of a Call on its collaborators (media adapter, session service, event
  subscriptions), in the order they are issued.
\<close>

datatype event =
    MediaEnd
  | Compare
  | Get
  | Leave
  | Decline
  | CreateOffer
  | LocusRequest string
  | AcceptAnswer
  | CreateLocalMediaStream constraint constraint
  | StopListening
  | Off

record call =
  correlationId :: "string option"
  facingMode :: "string option"
  locus :: "locus option"
  localMediaStream :: "stream option"
  locusJoinInFlight :: bool
  locusLeaveInFlight :: bool
  media :: media
  fetched :: nat
  trace :: "event list"

text \<open>
  \<open>fetched\<close> counts the fetches (\<^verbatim>\<open>spark.locus.get\<close>) issued so far; it selects the
  session service's next answer. \<open>trace\<close> lists the effects, oldest first.
\<close>

datatype action = USE_INCOMING | FETCH | OTHER

text \<open>
  The target of \<^verbatim>\<open>_join\<close>: the invitee of \<^verbatim>\<open>dial\<close> (a string) or the
  session of \<^verbatim>\<open>answer\<close>; and the options of \<^verbatim>\<open>_join\<close>, the constraints as
  the pair of \<^verbatim>\<open>audio\<close> and \<^verbatim>\<open>video\<close>.
\<close>

datatype target = Invitee string | Session locus

record options =
  opt_localMediaStream :: "stream option"
  opt_constraints :: "(constraint \<times> constraint) option"
  opt_offerToReceiveAudio :: "bool option"
  opt_offerToReceiveVideo :: "bool option"

text \<open>
  The collaborators that call.js imports and this repository's sources do not hold:
  the session service (\<^verbatim>\<open>spark.locus\<close>), the state parsers
  (\<^verbatim>\<open>./state-parsers\<close>), the media adapter's offer and stream creation, the uuid
  generator. Each is a parameter. An answer of the comparator other than
  \<^verbatim>\<open>USE_INCOMING\<close> and \<^verbatim>\<open>FETCH\<close> is \<open>OTHER\<close> (the \<^verbatim>\<open>default\<close> branch of
  \<^verbatim>\<open>_setLocus\<close>).
\<close>

record world =
  locus_compare :: "locus \<Rightarrow> locus \<Rightarrow> action"
  locus_get :: "nat \<Rightarrow> locus option \<Rightarrow> error + locus"
  locus_leave :: "locus option \<Rightarrow> error + locus"
  locus_decline :: "locus option \<Rightarrow> error + locus"
  locus_method :: "string \<Rightarrow> target \<Rightarrow> string option \<Rightarrow> error + locus"
  media_createOffer :: "error + string"
  media_acceptAnswer :: "string \<Rightarrow> error option"
  phone_defaultFacingMode :: string
  phone_createLocalMediaStream :: "constraint \<Rightarrow> constraint \<Rightarrow> error + stream"
  answeraccepted :: bool
  parse_direction :: "locus \<Rightarrow> string"
  parse_joinedOnThisDevice :: "locus \<Rightarrow> bool"
  participantIsJoined :: "participant \<Rightarrow> bool"
  remoteParticipant :: "locus \<Rightarrow> participant option"
  spark_device_url :: string
  uuid_v4 :: string

text \<open>
  How an operation ends: its promise resolves, its promise rejects, it throws before
  returning a promise, or its promise waits for a notification: for
  \<^verbatim>\<open>change:locus\<close>, after which \<^verbatim>\<open>hangup\<close> is run again, or for the media
  adapter's \<^verbatim>\<open>answeraccepted\<close>.
\<close>

datatype outcome =
  Resolved | Rejected error | Thrown error | AwaitLocusThenHangup | AwaitAnswerAccepted

section \<open>Derived properties\<close>

definition local_participant :: "call \<Rightarrow> participant option" where
  "local_participant c = (case locus c of None \<Rightarrow> None | Some l \<Rightarrow> self l)"

definition remote :: "world \<Rightarrow> call \<Rightarrow> participant option" where
  "remote w c = (case locus c of None \<Rightarrow> None | Some l \<Rightarrow> remoteParticipant w l)"

definition joinedOnThisDevice :: "world \<Rightarrow> call \<Rightarrow> bool" where
  "joinedOnThisDevice w c =
     (case locus c of None \<Rightarrow> False | Some l \<Rightarrow> parse_joinedOnThisDevice w l)"

definition direction :: "world \<Rightarrow> call \<Rightarrow> string" where
  "direction w c = (case locus c of None \<Rightarrow> ''out'' | Some l \<Rightarrow> parse_direction w l)"

text \<open>
  \<^verbatim>\<open>device\<close>: the entry of \<^verbatim>\<open>locus.self.devices\<close> whose url is this device's.
\<close>

definition device_of :: "world \<Rightarrow> locus \<Rightarrow> device option" where
  "device_of w l =
     (case self l of
        None \<Rightarrow> None
      | Some p \<Rightarrow> find (\<lambda>item. device_url item = spark_device_url w) (devices p))"

text \<open>
  The body of the derived property \<^verbatim>\<open>status\<close> (call.js, lines 281 to 301) over its
  three dependencies, with \<^verbatim>\<open>participantIsJoined\<close> of the state parsers as \<open>pij\<close>.
\<close>

definition status_fn ::
  "(participant \<Rightarrow> bool) \<Rightarrow> bool \<Rightarrow> participant option \<Rightarrow> participant option \<Rightarrow> string" where
  "status_fn pij jotd loc rem =
     (if jotd \<and> (case rem of None \<Rightarrow> False | Some r \<Rightarrow> pij r) then ''connected''
      else
        (case (rem, loc) of
           (Some r, Some l) \<Rightarrow>
             (if state r = ''LEFT'' \<or> state l = ''LEFT'' then ''disconnected''
              else if state r = ''DECLINED'' then ''disconnected''
              else if state r = ''NOTIFIED'' then ''ringing''
              else ''initiated'')
         | _ \<Rightarrow> ''initiated''))"

definition status :: "world \<Rightarrow> call \<Rightarrow> string" where
  "status w c =
     status_fn (participantIsJoined w) (joinedOnThisDevice w c) (local_participant c) (remote w c)"

section \<open>Session reconciliation\<close>

text \<open>
  \<^verbatim>\<open>_setLocus\<close> (call.js, lines 871 to 896). With no current session the incoming
  snapshot is stored and the comparator is not called. Otherwise the comparator decides:
  \<^verbatim>\<open>USE_INCOMING\<close> stores the snapshot and, when it holds a record of this device,
  copies that record's correlation id; \<^verbatim>\<open>FETCH\<close> fetches the session again and
  reconciles the copy; any other answer changes nothing. A fetch that fails rejects the
  promise. The recursion has no bound of its own, so the function is partial: \<open>None\<close>
  is a reconciliation that fetches forever. The run is sequential: nothing else assigns
  the session between a fetch and its answer, so each fetched copy is compared with the
  same current session.
\<close>

partial_function (option) setLocus :: "world \<Rightarrow> locus \<Rightarrow> call \<Rightarrow> (outcome \<times> call) option" where
  "setLocus w incoming c =
     (case locus c of
        None \<Rightarrow> Some (Resolved, c\<lparr>locus := Some incoming\<rparr>)
      | Some current \<Rightarrow>
          (case locus_compare w current incoming of
             USE_INCOMING \<Rightarrow>
               Some (Resolved,
                 (case device_of w incoming of
                    None \<Rightarrow> c\<lparr>locus := Some incoming, trace := trace c @ [Compare]\<rparr>
                  | Some d \<Rightarrow>
                      c\<lparr>locus := Some incoming, correlationId := device_correlationId d,
                        trace := trace c @ [Compare]\<rparr>))
           | FETCH \<Rightarrow>
               (case locus_get w (fetched c) (Some current) of
                  Inl e \<Rightarrow>
                    Some (Rejected e,
                      c\<lparr>fetched := Suc (fetched c), trace := trace c @ [Compare, Get]\<rparr>)
                | Inr l \<Rightarrow>
                    setLocus w l
                      (c\<lparr>fetched := Suc (fetched c), trace := trace c @ [Compare, Get]\<rparr>))
           | OTHER \<Rightarrow> Some (Resolved, c\<lparr>trace := trace c @ [Compare]\<rparr>)))"

text \<open>
  The fields of a call that the program holds; \<open>fetched\<close> and \<open>trace\<close> only record
  what was asked of the collaborators.
\<close>

definition held :: "call \<Rightarrow> call" where
  "held c = c\<lparr>fetched := 0, trace := []\<rparr>"

text \<open>
  The snapshot that a reconciliation judged last, read off the calls before and after
  it: the incoming snapshot when nothing was fetched, else the copy fetched last, and
  none when that fetch failed.
\<close>

definition last_reconciled :: "world \<Rightarrow> locus \<Rightarrow> locus \<Rightarrow> call \<Rightarrow> call \<Rightarrow> locus option" where
  "last_reconciled w current incoming c c' =
     (if fetched c' = fetched c then Some incoming
      else (case locus_get w (fetched c' - 1) (Some current) of
              Inl e \<Rightarrow> None
            | Inr l \<Rightarrow> Some l))"

text \<open>
  What a reconciliation that returned has done, by the snapshot it judged last: a failed
  fetch rejects and changes neither session nor correlation id; an adopted snapshot is
  the session afterwards, and the correlation id is that of its record of this device,
  if it has one; an ignored snapshot changes neither.
\<close>

definition reconciled :: "world \<Rightarrow> locus \<Rightarrow> locus \<Rightarrow> call \<Rightarrow> outcome \<times> call \<Rightarrow> bool" where
  "reconciled w cur inc c y =
     (fetched c \<le> fetched (snd y)
      \<and> (case last_reconciled w cur inc c (snd y) of
           None \<Rightarrow>
             (\<exists>e. fst y = Rejected e) \<and> locus (snd y) = locus c
             \<and> correlationId (snd y) = correlationId c
         | Some l \<Rightarrow>
             fst y = Resolved
             \<and> (case locus_compare w cur l of
                  USE_INCOMING \<Rightarrow>
                    locus (snd y) = Some l
                    \<and> correlationId (snd y) =
                        (case device_of w l of
                           None \<Rightarrow> correlationId c
                         | Some d \<Rightarrow> device_correlationId d)
                | FETCH \<Rightarrow> False
                | OTHER \<Rightarrow> locus (snd y) = locus c \<and> correlationId (snd y) = correlationId c)))"

text \<open>
  Modelled from the spec: the change notifications come from the state library under
  \<^verbatim>\<open>SparkPlugin\<close>, which is not among the sources. The spec has every accepted
  transition emit "a change notification per changed derived field", a status change
  emit the lifecycle event of the new status, and an ignored snapshot "no state change,
  no event". \<open>notifications w before after\<close> lists what a transition can emit: a
  notification for each session attribute that changed; with a changed session, one for
  each derived property computed from the session other than the three below (which of
  them do notify is up to the state parsers; the objects among them always do, by the
  comment at lines 142 to 145 of call.js); one for each of \<^verbatim>\<open>direction\<close>,
  \<^verbatim>\<open>joinedOnThisDevice\<close> and \<^verbatim>\<open>status\<close> whose value changed; and, with a
  changed status, the lifecycle event (call.js, lines 453 to 467). Values are compared:
  a snapshot that is reconciled twice is the same object both times.
\<close>

definition notifications :: "world \<Rightarrow> call \<Rightarrow> call \<Rightarrow> string list" where
  "notifications w before after =
     (if correlationId after \<noteq> correlationId before then [''change:correlationId''] else [])
     @ (if facingMode after \<noteq> facingMode before then [''change:facingMode''] else [])
     @ (if localMediaStream after \<noteq> localMediaStream before
        then [''change:localMediaStream''] else [])
     @ (if locus after \<noteq> locus before
        then [''change:locus'', ''change:id'', ''change:isActive'', ''change:activeParticipants'',
              ''change:activeParticipantsCount'', ''change:joined'', ''change:locusUrl'',
              ''change:device'', ''change:mediaConnection'', ''change:mediaId'',
              ''change:local'', ''change:remote'', ''change:from'', ''change:to'',
              ''change:remoteAudioMuted'', ''change:remoteVideoMuted'']
        else [])
     @ (if direction w after \<noteq> direction w before then [''change:direction''] else [])
     @ (if joinedOnThisDevice w after \<noteq> joinedOnThisDevice w before
        then [''change:joinedOnThisDevice''] else [])
     @ (if status w after \<noteq> status w before
        then ''change:status'' #
             (if status w after \<in> {''ringing'', ''connected'', ''disconnected''}
              then [status w after] else [])
        else [])"

section \<open>Lifecycle operations\<close>

text \<open>JavaScript truthiness of a string that may be undefined.\<close>

definition truthy :: "string option \<Rightarrow> bool" where
  "truthy s = (case s of None \<Rightarrow> False | Some v \<Rightarrow> v \<noteq> [])"

definition truthy_constraint :: "constraint \<Rightarrow> bool" where
  "truthy_constraint k = (k \<noteq> Falsy)"

definition target_correlationId :: "target \<Rightarrow> string option" where
  "target_correlationId t = (case t of Invitee _ \<Rightarrow> None | Session l \<Rightarrow> locus_correlationId l)"

text \<open>\<^verbatim>\<open>get(options, 'constraints.video.facingMode.exact')\<close>.\<close>

definition facingMode_exact :: "constraint \<Rightarrow> string option" where
  "facingMode_exact k = (case k of Obj m \<Rightarrow> m | _ \<Rightarrow> None)"

text \<open>
  The handler of \<^verbatim>\<open>change:localMediaStream\<close> (call.js, lines 405 to 421), run when
  a new stream is assigned to the call.
\<close>

definition on_change_localMediaStream :: "call \<Rightarrow> call" where
  "on_change_localMediaStream c =
     (let c1 = (if media_localMediaStream (media c) \<noteq> localMediaStream c
                then c\<lparr>media := (media c)\<lparr>media_localMediaStream := localMediaStream c\<rparr>\<rparr>
                else c)
      in if truthy (facingMode c1)
         then
           (let mode = facingMode_exact (videoConstraint (media c1)) in
            if mode = Some ''user'' \<or> mode = Some ''environment''
            then c1\<lparr>facingMode := mode\<rparr> else c1)
         else c1)"

text \<open>
  An assignment to \<^verbatim>\<open>this.localMediaStream\<close>: the handler runs when the value
  changes. And the handler of \<^verbatim>\<open>change:media.localMediaStream\<close> (call.js, lines 392
  to 403), which copies the adapter's stream to the call; the object URLs it manages are
  left out.
\<close>

definition set_localMediaStream :: "stream option \<Rightarrow> call \<Rightarrow> call" where
  "set_localMediaStream s c =
     (if localMediaStream c = s then c
      else on_change_localMediaStream (c\<lparr>localMediaStream := s\<rparr>))"

definition on_change_media_localMediaStream :: "call \<Rightarrow> call" where
  "on_change_media_localMediaStream c =
     set_localMediaStream (media_localMediaStream (media c)) c"

text \<open>
  \<^verbatim>\<open>_join\<close> (call.js, lines 808 to 861) in the three steps its promise chain has.
  \<open>join_begin\<close> is the synchronous part: the media settings, the correlation id, and
  the request for an offer. A stream given in the options goes to the media adapter,
  whose change notification copies it to the call. Constraints given to the adapter
  (\<^verbatim>\<open>web-rtc-media\<close>, not among the sources) are the ones it holds afterwards as
  \<^verbatim>\<open>audioConstraint\<close> and \<^verbatim>\<open>videoConstraint\<close>, which \<^verbatim>\<open>toggleFacingMode\<close>
  reads.
\<close>

definition join_media :: "world \<Rightarrow> options \<Rightarrow> call \<Rightarrow> call" where
  "join_media w opts c =
     (case opt_localMediaStream opts of
        Some s \<Rightarrow>
          if media_localMediaStream (media c) = Some s then c
          else on_change_media_localMediaStream
                 (c\<lparr>media := (media c)\<lparr>media_localMediaStream := Some s\<rparr>\<rparr>)
      | None \<Rightarrow>
          (let (a, v) =
                 (case opt_constraints opts of
                    None \<Rightarrow> (IsTrue, Obj (Some (phone_defaultFacingMode w)))
                  | Some k \<Rightarrow> k);
               mode = facingMode_exact v;
               c1 = (if mode = Some ''user'' \<or> mode = Some ''environment''
                     then c\<lparr>facingMode := mode\<rparr> else c);
               recvOnly = (\<not> truthy_constraint a \<and> \<not> truthy_constraint v);
               ora = (case opt_offerToReceiveAudio opts of
                        None \<Rightarrow> recvOnly \<or> truthy_constraint a | Some b \<Rightarrow> b);
               orv = (case opt_offerToReceiveVideo opts of
                        None \<Rightarrow> recvOnly \<or> truthy_constraint v | Some b \<Rightarrow> b)
           in c1\<lparr>media := (media c1)\<lparr>audio := a, video := v,
                   offerToReceiveAudio := ora, offerToReceiveVideo := orv,
                   audioConstraint := a, videoConstraint := v\<rparr>\<rparr>))"

definition join_correlationId :: "world \<Rightarrow> target \<Rightarrow> call \<Rightarrow> call" where
  "join_correlationId w t c =
     (let c1 = (if \<not> truthy (target_correlationId t)
                then c\<lparr>correlationId := Some (uuid_v4 w)\<rparr> else c)
      in if \<not> truthy (correlationId c1)
         then c1\<lparr>correlationId := target_correlationId t\<rparr> else c1)"

definition join_begin :: "world \<Rightarrow> target \<Rightarrow> options \<Rightarrow> call \<Rightarrow> call" where
  "join_begin w t opts c =
     (let c1 = join_correlationId w t (join_media w opts c)
      in c1\<lparr>trace := trace c1 @ [CreateOffer]\<rparr>)"

text \<open>
  \<open>join_request\<close>: the offer has arrived and the round trip to the session service
  (\<^verbatim>\<open>spark.locus[locusMethodName]\<close>) is issued.
\<close>

definition join_request :: "string \<Rightarrow> call \<Rightarrow> call" where
  "join_request locusMethodName c = c\<lparr>trace := trace c @ [LocusRequest locusMethodName]\<rparr>"

text \<open>
  The part of \<^verbatim>\<open>_setLocus\<close> that runs before it returns its promise. On
  \<^verbatim>\<open>FETCH\<close> the fetch is issued and its answer is still to come.
\<close>

definition setLocus_begin :: "world \<Rightarrow> locus \<Rightarrow> call \<Rightarrow> call" where
  "setLocus_begin w incoming c =
     (case locus c of
        None \<Rightarrow> c\<lparr>locus := Some incoming\<rparr>
      | Some current \<Rightarrow>
          (case locus_compare w current incoming of
             USE_INCOMING \<Rightarrow>
               (case device_of w incoming of
                  None \<Rightarrow> c\<lparr>locus := Some incoming, trace := trace c @ [Compare]\<rparr>
                | Some d \<Rightarrow>
                    c\<lparr>locus := Some incoming, correlationId := device_correlationId d,
                      trace := trace c @ [Compare]\<rparr>)
           | FETCH \<Rightarrow> c\<lparr>fetched := Suc (fetched c), trace := trace c @ [Compare, Get]\<rparr>
           | OTHER \<Rightarrow> c\<lparr>trace := trace c @ [Compare]\<rparr>))"

text \<open>
  \<open>join_land\<close>: the session service has answered with a session. \<^verbatim>\<open>_join\<close> calls
  \<^verbatim>\<open>_setLocus\<close> and does not await its promise: it goes on with the session the call
  holds when \<^verbatim>\<open>_setLocus\<close> returns, and a fetch that \<^verbatim>\<open>_setLocus\<close> has issued is
  left outstanding. The remote description is read from the media connection of this
  device's record; without one the read throws inside the promise chain.
\<close>

definition join_land :: "world \<Rightarrow> locus \<Rightarrow> call \<Rightarrow> outcome \<times> call" where
  "join_land w l c =
     (let c2 = (setLocus_begin w l c)\<lparr>locusJoinInFlight := False\<rparr> in
      case (case locus c2 of None \<Rightarrow> None
            | Some cur \<Rightarrow>
                (case device_of w cur of None \<Rightarrow> None | Some d \<Rightarrow> device_remoteSdp d)) of
        None \<Rightarrow> (Rejected (Error ''TypeError''), c2)
      | Some sdp \<Rightarrow>
          (case media_acceptAnswer w sdp of
             None \<Rightarrow> (Resolved, c2\<lparr>trace := trace c2 @ [AcceptAnswer]\<rparr>)
           | Some e \<Rightarrow> (Rejected e, c2\<lparr>trace := trace c2 @ [AcceptAnswer]\<rparr>)))"

definition internal_join ::
  "world \<Rightarrow> string \<Rightarrow> target \<Rightarrow> options \<Rightarrow> call \<Rightarrow> outcome \<times> call" where
  "internal_join w locusMethodName t opts c =
     (let c1 = join_begin w t opts c in
      case media_createOffer w of
        Inl e \<Rightarrow> (Rejected e, c1)
      | Inr offer \<Rightarrow>
          (let c2 = join_request locusMethodName c1 in
           case locus_method w locusMethodName t (correlationId c2) of
             Inl e \<Rightarrow> (Rejected e, c2)
           | Inr l \<Rightarrow> join_land w l c2))"

text \<open>
  \<^verbatim>\<open>answer\<close> (call.js, lines 479 to 492). The test \<^verbatim>\<open>!this.locus\<close> comes first,
  so the session is at hand in the other branches. Like the other lifecycle operations
  it gives an optional result, though it always has one.
\<close>

definition answer :: "world \<Rightarrow> options \<Rightarrow> call \<Rightarrow> (outcome \<times> call) option" where
  "answer w opts c =
     (case locus c of
        None \<Rightarrow> Some (Resolved, c)
      | Some l \<Rightarrow>
          if direction w c = ''out'' then Some (Resolved, c)
          else if joinedOnThisDevice w c \<and> peer (media c) then Some (Resolved, c)
          else Some (internal_join w ''join'' (Session l) opts c))"

text \<open>
  \<^verbatim>\<open>reject\<close> (call.js, lines 613 to 626). The decorator \<^verbatim>\<open>@oneFlight\<close>, which
  hands a second caller the promise of a run that is still pending, has no effect on a
  run that starts with none pending, and is left out.
\<close>

definition reject :: "world \<Rightarrow> call \<Rightarrow> (outcome \<times> call) option" where
  "reject w c =
     (if direction w c = ''out'' then Some (Resolved, c)
      else
        (let c1 = c\<lparr>trace := trace c @ [Decline]\<rparr> in
         case locus_decline w (locus c) of
           Inl e \<Rightarrow> Some (Rejected e, c1)
         | Inr l \<Rightarrow>
             (case setLocus w l c1 of
                None \<Rightarrow> None
              | Some (Resolved, c2) \<Rightarrow>
                  Some (Resolved, c2\<lparr>trace := trace c2 @ [StopListening, Off]\<rparr>)
              | Some (r, c2) \<Rightarrow> Some (r, c2))))"

text \<open>\<^verbatim>\<open>_hangup\<close> (call.js, lines 582 to 593), without \<^verbatim>\<open>@oneFlight\<close> as above.\<close>

definition internal_hangup :: "world \<Rightarrow> call \<Rightarrow> (outcome \<times> call) option" where
  "internal_hangup w c =
     (let c1 = c\<lparr>locusLeaveInFlight := True, trace := trace c @ [Leave]\<rparr> in
      case locus_leave w (locus c1) of
        Inl e \<Rightarrow> Some (Rejected e, c1)
      | Inr l \<Rightarrow>
          (case setLocus w l c1 of
             None \<Rightarrow> None
           | Some (Resolved, c2) \<Rightarrow>
               Some (Resolved,
                 c2\<lparr>locusLeaveInFlight := False, trace := trace c2 @ [StopListening, Off]\<rparr>)
           | Some (r, c2) \<Rightarrow> Some (r, c2)))"

text \<open>
  \<^verbatim>\<open>hangup\<close> (call.js, lines 551 to 574). With no session and the join flag set, the
  promise returned waits for \<^verbatim>\<open>change:locus\<close> and then runs \<^verbatim>\<open>hangup\<close> again.
\<close>

definition hangup :: "world \<Rightarrow> call \<Rightarrow> (outcome \<times> call) option" where
  "hangup w c =
     (if direction w c = ''in'' \<and> \<not> joinedOnThisDevice w c then reject w c
      else
        (let c1 = c\<lparr>trace := trace c @ [MediaEnd]\<rparr> in
         case locus c1 of
           None \<Rightarrow>
             if locusJoinInFlight c1 then Some (AwaitLocusThenHangup, c1)
             else Some (Resolved, c1\<lparr>trace := trace c1 @ [StopListening, Off]\<rparr>)
         | Some _ \<Rightarrow> internal_hangup w c1))"

section \<open>Facing mode\<close>

text \<open>\<^verbatim>\<open>Object.assign({}, x)\<close>: always an object, with the fields of \<open>x\<close> if it has any.\<close>

definition assign_copy :: "constraint \<Rightarrow> constraint" where
  "assign_copy k = (case k of Obj m \<Rightarrow> Obj m | _ \<Rightarrow> Obj None)"

text \<open>
  \<^verbatim>\<open>toggleFacingMode\<close> (call.js, lines 635 to 672). The two \<^verbatim>\<open>throw\<close> statements
  come before anything is asked of the phone or the media adapter. After them the video
  constraint is an object whose \<^verbatim>\<open>facingMode.exact\<close> is the opposite mode; unless
  the adapter's constraint was \<^verbatim>\<open>true\<close>, that object is the adapter's own, which
  \<^verbatim>\<open>set\<close> changes in place.
\<close>

definition toggleFacingMode :: "world \<Rightarrow> call \<Rightarrow> outcome \<times> call" where
  "toggleFacingMode w c =
     (let a = assign_copy (audioConstraint (media c));
          v = videoConstraint (media c)
      in if \<not> truthy_constraint v
         then (Thrown (Error ''Cannot toggle facignMode on audio-only call''), c)
         else if facingMode c \<noteq> Some ''user'' \<and> facingMode c \<noteq> Some ''environment''
         then (Thrown (Error
                 ''Cannot determine current facing mode; specify a new localMediaStream to change cameras''),
               c)
         else
           (let mode = (if facingMode c = Some ''user'' then ''environment'' else ''user'');
                v' = Obj (Some mode);
                m1 = (if v = IsTrue then media c else (media c)\<lparr>videoConstraint := v'\<rparr>);
                c1 = c\<lparr>media := m1, trace := trace c @ [CreateLocalMediaStream a v']\<rparr>
            in case phone_createLocalMediaStream w a v' of
                 Inl e \<Rightarrow> (Rejected e, c1)
               | Inr s \<Rightarrow>
                   (let c2 = set_localMediaStream (Some s) c1
                    in if answeraccepted w then (Resolved, c2\<lparr>facingMode := Some mode\<rparr>)
                       else (AwaitAnswerAccepted, c2))))"

section \<open>Polling for the expected session\<close>

text \<open>
  \<^verbatim>\<open>boolToStatus\<close>, as the media state tests define it (lines 28 to 46 of that
  file); call.js imports the function of this name from \<^verbatim>\<open>./bool-to-status\<close>. Its
  arguments are read for their truthiness. The final \<^verbatim>\<open>throw\<close> is kept as a branch.
\<close>

definition boolToStatus :: "bool \<Rightarrow> bool \<Rightarrow> error + string" where
  "boolToStatus sending receiving =
     (if sending \<and> receiving then Inr ''sendrecv''
      else if sending \<and> \<not> receiving then Inr ''sendonly''
      else if \<not> sending \<and> receiving then Inr ''recvonly''
      else if \<not> sending \<and> \<not> receiving then Inr ''inactive''
      else Inl (Error ''If you see this error, your JavaScript engine has a major flaw''))"

text \<open>\<^verbatim>\<open>String.prototype.toLowerCase\<close> on the ASCII letters.\<close>

definition lower_char :: "char \<Rightarrow> char" where
  "lower_char ch =
     (case map_of (zip ''ABCDEFGHIJKLMNOPQRSTUVWXYZ'' ''abcdefghijklmnopqrstuvwxyz'') ch of
        None \<Rightarrow> ch
      | Some lower \<Rightarrow> lower)"

definition toLowerCase :: "string \<Rightarrow> string" where
  "toLowerCase s = map lower_char s"

text \<open>
  The body of \<^verbatim>\<open>_fetchExpectedLocus\<close> (call.js, lines 912 to 925): one fetch, and the
  test of the fetched snapshot's audio and video status against the media adapter's
  flags. A snapshot without \<^verbatim>\<open>self\<close> makes the test throw.
\<close>

definition fetchExpectedLocus_body :: "world \<Rightarrow> call \<Rightarrow> (error + locus) \<times> call" where
  "fetchExpectedLocus_body w c =
     (let c1 = c\<lparr>fetched := Suc (fetched c), trace := trace c @ [Get]\<rparr> in
      case locus_get w (fetched c) (locus c) of
        Inl e \<Rightarrow> (Inl e, c1)
      | Inr l \<Rightarrow>
          (case self l of
             None \<Rightarrow> (Inl (Error ''TypeError''), c1)
           | Some p \<Rightarrow>
               (case boolToStatus (truthy_constraint (audio (media c)))
                       (offerToReceiveAudio (media c)) of
                  Inl e \<Rightarrow> (Inl e, c1)
                | Inr expectedAudio \<Rightarrow>
                    if toLowerCase (audioStatus p) \<noteq> expectedAudio
                    then (Inl (Error
                            ''locus.self.status.audioStatus indicates the received DTO is out of date''),
                          c1)
                    else
                      (case boolToStatus (truthy_constraint (video (media c)))
                              (offerToReceiveVideo (media c)) of
                         Inl e \<Rightarrow> (Inl e, c1)
                       | Inr expectedVideo \<Rightarrow>
                           if toLowerCase (videoStatus p) \<noteq> expectedVideo
                           then (Inl (Error
                                   ''locus.self.status.videoStatus indicates the received DTO is out of date''),
                                 c1)
                           else (Inr l, c1)))))"

text \<open>
  Modelled from the spec: the decorator \<^verbatim>\<open>@retry\<close> of \<^verbatim>\<open>@ciscospark/common\<close> is
  not among the sources. The spec has the fetch retried "a bounded small number of times
  before giving up and propagating failure". \<open>retry n f\<close> runs \<open>f\<close> and, as long as
  it fails, runs it again, at most \<open>n\<close> more times; the last failure is the result.
\<close>

fun retry :: "nat \<Rightarrow> (call \<Rightarrow> (error + 'a) \<times> call) \<Rightarrow> call \<Rightarrow> (error + 'a) \<times> call" where
  "retry 0 f c = f c"
| "retry (Suc n) f c =
     (case f c of
        (Inl e, c') \<Rightarrow> retry n f c'
      | (Inr x, c') \<Rightarrow> (Inr x, c'))"

text \<open>
  \<^verbatim>\<open>_fetchExpectedLocus\<close> (call.js, lines 905 to 925). Its comment has the polling
  end when the expected session arrives "or three errors occur": three runs of the body.
\<close>

definition fetchExpectedLocus :: "world \<Rightarrow> call \<Rightarrow> (error + locus) \<times> call" where
  "fetchExpectedLocus w c = retry 2 (fetchExpectedLocus_body w) c"

text \<open>
  What \<^verbatim>\<open>_fetchExpectedLocus\<close> tests of a fetched snapshot, as a predicate: both
  reported status strings, in lower case, are the strings expected from the media
  adapter's flags.
\<close>

definition expected :: "call \<Rightarrow> locus \<Rightarrow> bool" where
  "expected c l =
     (case self l of
        None \<Rightarrow> False
      | Some p \<Rightarrow>
          Inr (toLowerCase (audioStatus p)) =
            boolToStatus (truthy_constraint (audio (media c))) (offerToReceiveAudio (media c))
          \<and> Inr (toLowerCase (videoStatus p)) =
            boolToStatus (truthy_constraint (video (media c))) (offerToReceiveVideo (media c)))"

section \<open>Sample sessions and collaborators\<close>

text \<open>Concrete values at which the theorems below are instantiated.\<close>

definition sample_media :: media where
  "sample_media =
     \<lparr>audio = Falsy, video = Falsy, offerToReceiveAudio = False, offerToReceiveVideo = False,
      audioConstraint = Falsy, videoConstraint = Falsy, media_localMediaStream = None,
      peer = False\<rparr>"

text \<open>A call as \<^verbatim>\<open>Call.make({})\<close> leaves it: nothing assigned yet.\<close>

definition new_call :: call where
  "new_call =
     \<lparr>correlationId = None, facingMode = None, locus = None, localMediaStream = None,
      locusJoinInFlight = False, locusLeaveInFlight = False, media = sample_media,
      fetched = 0, trace = []\<rparr>"

definition sample_participant :: "string \<Rightarrow> string option \<Rightarrow> participant" where
  "sample_participant st corr =
     \<lparr>state = st, audioStatus = ''SENDRECV'', videoStatus = ''SENDRECV'',
      devices = [\<lparr>device_url = ''device/1'', device_correlationId = corr,
                  device_remoteSdp = Some ''sdp''\<rparr>]\<rparr>"

definition sample_locus :: "nat \<Rightarrow> string option \<Rightarrow> locus" where
  "sample_locus n corr =
     \<lparr>url = ''locus/1'', sequence = n, self = Some (sample_participant ''JOINED'' corr),
      locus_correlationId = None\<rparr>"

text \<open>
  A comparator by sequence numbers: the next snapshot is adopted, an older or equal one
  is ignored, and a gap asks for a fetch.
\<close>

definition by_sequence :: "locus \<Rightarrow> locus \<Rightarrow> action" where
  "by_sequence current incoming =
     (if sequence incoming = Suc (sequence current) then USE_INCOMING
      else if sequence incoming \<le> sequence current then OTHER
      else FETCH)"

definition sample_world ::
  "(locus \<Rightarrow> locus \<Rightarrow> action) \<Rightarrow> (nat \<Rightarrow> locus option \<Rightarrow> error + locus) \<Rightarrow> world" where
  "sample_world cmp fetch =
     \<lparr>locus_compare = cmp, locus_get = fetch,
      locus_leave = (\<lambda>_. Inl (Error ''leave failed'')),
      locus_decline = (\<lambda>_. Inl (Error ''decline failed'')),
      locus_method = (\<lambda>_ _ corr. Inr (sample_locus 1 corr)),
      media_createOffer = Inr ''offer'',
      media_acceptAnswer = (\<lambda>_. None),
      phone_defaultFacingMode = ''user'',
      phone_createLocalMediaStream = (\<lambda>_ _. Inr ''stream/2''),
      answeraccepted = True,
      parse_direction = (\<lambda>_. ''out''),
      parse_joinedOnThisDevice = (\<lambda>_. True),
      participantIsJoined = (\<lambda>p. state p = ''JOINED''),
      remoteParticipant = (\<lambda>_. Some (sample_participant ''JOINED'' None)),
      spark_device_url = ''device/1'',
      uuid_v4 = ''uuid-1''\<rparr>"

text \<open>
  A session service whose first two copies of the session (sequence 9) are ahead of
  what the call holds and whose later copies have sequence 2.
\<close>

definition stale_twice :: "nat \<Rightarrow> locus option \<Rightarrow> error + locus" where
  "stale_twice k current =
     (if k < 2 then Inr (sample_locus 9 None) else Inr (sample_locus 2 None))"

definition call_with :: "locus \<Rightarrow> call" where
  "call_with l = new_call\<lparr>locus := Some l\<rparr>"

text \<open>
  Collaborators for an inbound call that this device has not joined: the state parsers
  say so of every session, and a decline is answered with the next snapshot.
\<close>

definition inbound_world :: world where
  "inbound_world =
     (sample_world by_sequence stale_twice)
       \<lparr>locus_decline := (\<lambda>_. Inr (sample_locus 2 None)),
        parse_direction := (\<lambda>_. ''in''),
        parse_joinedOnThisDevice := (\<lambda>_. False)\<rparr>"

definition no_options :: options where
  "no_options =
     \<lparr>opt_localMediaStream = None, opt_constraints = None,
      opt_offerToReceiveAudio = None, opt_offerToReceiveVideo = None\<rparr>"

text \<open>
  A new call on which \<^verbatim>\<open>dial\<close> has run \<^verbatim>\<open>_join\<close> up to the request to the
  session service; the answer is outstanding.
\<close>

definition dialling :: call where
  "dialling =
     join_request ''create''
       (join_begin (sample_world by_sequence stale_twice) (Invitee ''mccoy@example.com'')
          no_options new_call)"

text \<open>A call whose correlation id is that of its device record in the session.\<close>

definition joined_call :: call where
  "joined_call =
     (call_with (sample_locus 1 (Some ''uuid-0'')))\<lparr>correlationId := Some ''uuid-0''\<rparr>"

text \<open>
  A session service whose \<open>k\<close>-th copy of the session has sequence \<open>k + 2\<close>: the
  session moves on between two fetches.
\<close>

definition advancing :: "nat \<Rightarrow> locus option \<Rightarrow> error + locus" where
  "advancing k current = Inr (sample_locus (k + 2) None)"

text \<open>The call after one, and after two, reconciliations that fetched.\<close>

definition refetched_once :: call where
  "refetched_once =
     (call_with (sample_locus 2 None))\<lparr>fetched := 1, trace := [Compare, Get, Compare]\<rparr>"

definition refetched_twice :: call where
  "refetched_twice =
     (call_with (sample_locus 3 None))
       \<lparr>fetched := 2, trace := [Compare, Get, Compare, Compare, Get, Compare]\<rparr>"

text \<open>
  Sessions that report given audio and video status strings; a service whose first copy
  still reports video as sent and received; and a call that sends audio, receives audio
  and video, and sends no video.
\<close>

definition status_locus :: "string \<Rightarrow> string \<Rightarrow> locus" where
  "status_locus a v =
     \<lparr>url = ''locus/1'', sequence = 2,
      self = Some \<lparr>state = ''JOINED'', audioStatus = a, videoStatus = v, devices = []\<rparr>,
      locus_correlationId = None\<rparr>"

definition late_status :: "nat \<Rightarrow> locus option \<Rightarrow> error + locus" where
  "late_status k current =
     (if k < 1 then Inr (status_locus ''SENDRECV'' ''SENDRECV'')
      else Inr (status_locus ''SENDRECV'' ''RECVONLY''))"

definition receiving_video_only :: call where
  "receiving_video_only =
     (call_with (sample_locus 1 None))
       \<lparr>media := sample_media\<lparr>audio := IsTrue, video := Falsy,
           offerToReceiveAudio := True, offerToReceiveVideo := True\<rparr>\<rparr>"

section \<open>What the stream handlers leave alone\<close>

lemma on_change_localMediaStream_frame:
  "correlationId (on_change_localMediaStream c) = correlationId c"
  "locus (on_change_localMediaStream c) = locus c"
  "locusJoinInFlight (on_change_localMediaStream c) = locusJoinInFlight c"
  "trace (on_change_localMediaStream c) = trace c"
  by (simp_all add: on_change_localMediaStream_def Let_def)

lemma set_localMediaStream_frame:
  "correlationId (set_localMediaStream s c) = correlationId c"
  "locus (set_localMediaStream s c) = locus c"
  "locusJoinInFlight (set_localMediaStream s c) = locusJoinInFlight c"
  "trace (set_localMediaStream s c) = trace c"
  by (simp_all add: set_localMediaStream_def on_change_localMediaStream_frame)

lemma on_change_media_localMediaStream_frame:
  "correlationId (on_change_media_localMediaStream c) = correlationId c"
  "locus (on_change_media_localMediaStream c) = locus c"
  "locusJoinInFlight (on_change_media_localMediaStream c) = locusJoinInFlight c"
  "trace (on_change_media_localMediaStream c) = trace c"
  by (simp_all add: on_change_media_localMediaStream_def set_localMediaStream_frame)

lemma join_media_frame:
  "correlationId (join_media w opts c) = correlationId c"
  "locus (join_media w opts c) = locus c"
  "locusJoinInFlight (join_media w opts c) = locusJoinInFlight c"
  "trace (join_media w opts c) = trace c"
  by (simp_all add: join_media_def Let_def on_change_media_localMediaStream_frame
      split: option.splits prod.splits)

section \<open>Status derivation\<close>

text \<open>
  C1. The derived status follows the ordered rule: it is connected whenever this device
  has joined and the remote participant is joined, whatever the participants' states
  (also LEFT or DECLINED); otherwise, when both the local and the remote participant
  exist, it is disconnected if either has state LEFT, else disconnected if the remote
  state is DECLINED, else ringing if the remote state is NOTIFIED; in every remaining
  case it is initiated.
\<close>

theorem status_ordered_rule:
  "(jotd \<and> rem = Some r \<and> pij r \<longrightarrow> status_fn pij jotd loc rem = ''connected'')
   \<and> (\<not> (jotd \<and> (\<exists>r'. rem = Some r' \<and> pij r')) \<longrightarrow>
        (loc = Some l \<and> rem = Some r \<longrightarrow>
           status_fn pij jotd loc rem =
             (if state r = ''LEFT'' \<or> state l = ''LEFT'' then ''disconnected''
              else if state r = ''DECLINED'' then ''disconnected''
              else if state r = ''NOTIFIED'' then ''ringing''
              else ''initiated''))
        \<and> (loc = None \<or> rem = None \<longrightarrow> status_fn pij jotd loc rem = ''initiated''))
   \<and> status w c =
       status_fn (participantIsJoined w) (joinedOnThisDevice w c) (local_participant c) (remote w c)"
  by (auto simp: status_fn_def status_def split: option.splits)

text \<open>
  A session in which this device and the remote participant are joined while the local
  participant's record still says LEFT: the status is connected. And a session that this
  device has not joined, whose remote participant has been notified: ringing.
\<close>

theorem status_ordered_rule_witness:
  "status_fn (\<lambda>p. state p = ''JOINED'') True
      (Some (sample_participant ''LEFT'' None)) (Some (sample_participant ''JOINED'' None))
     = ''connected''
   \<and> status_fn (\<lambda>p. state p = ''JOINED'') False
      (Some (sample_participant ''IDLE'' None)) (Some (sample_participant ''NOTIFIED'' None))
     = ''ringing''"
  using
    status_ordered_rule
      [of True "Some (sample_participant ''JOINED'' None)" "sample_participant ''JOINED'' None"
          "\<lambda>p. state p = ''JOINED''" "Some (sample_participant ''LEFT'' None)"]
    status_ordered_rule
      [of False "Some (sample_participant ''NOTIFIED'' None)"
          "sample_participant ''NOTIFIED'' None" "\<lambda>p. state p = ''JOINED''"
          "Some (sample_participant ''IDLE'' None)" "sample_participant ''IDLE'' None"]
  by (simp add: sample_participant_def)

section \<open>First snapshot\<close>

text \<open>
  C2. When the call has no session, reconciliation adopts the incoming snapshot S
  unconditionally: the promise resolves, the session becomes exactly S, nothing else of
  the call changes, the comparator is not called (no effect is recorded) and its answers
  have no influence on the result.
\<close>

theorem setLocus_first_snapshot:
  "locus c = None \<Longrightarrow>
     setLocus w S c = Some (Resolved, c\<lparr>locus := Some S\<rparr>)
     \<and> setLocus (w\<lparr>locus_compare := cmp\<rparr>) S c = setLocus w S c"
  by (simp add: setLocus.simps [of _ S c])

theorem setLocus_first_snapshot_witness:
  "setLocus (sample_world by_sequence (\<lambda>_ _. Inl (Error ''offline''))) (sample_locus 7 None) new_call
     = Some (Resolved, new_call\<lparr>locus := Some (sample_locus 7 None)\<rparr>)"
  using setLocus_first_snapshot
    [of new_call "sample_world by_sequence (\<lambda>_ _. Inl (Error ''offline''))" "sample_locus 7 None"]
  by (simp add: new_call_def)

section \<open>Re-fetching\<close>

lemma setLocus_accept:
  assumes "locus c = Some cur" and "locus_compare w cur inc \<noteq> FETCH"
  shows "\<exists>c'. setLocus w inc c = Some (Resolved, c') \<and> fetched c' = fetched c
           \<and> locus c' = (if locus_compare w cur inc = USE_INCOMING then Some inc else Some cur)"
  using assms
  by (cases "locus_compare w cur inc")
     (simp_all add: setLocus.simps [of w inc c] split: option.splits)

lemma setLocus_adopt:
  assumes "locus c = Some cur" and "locus_compare w cur inc = USE_INCOMING"
  shows "setLocus w inc c =
           Some (Resolved,
             (case device_of w inc of
                None \<Rightarrow> c\<lparr>locus := Some inc, trace := trace c @ [Compare]\<rparr>
              | Some d \<Rightarrow>
                  c\<lparr>locus := Some inc, correlationId := device_correlationId d,
                    trace := trace c @ [Compare]\<rparr>))"
  using assms by (simp add: setLocus.simps [of w inc c])

lemma setLocus_ignore:
  assumes "locus c = Some cur" and "locus_compare w cur inc = OTHER"
  shows "setLocus w inc c = Some (Resolved, c\<lparr>trace := trace c @ [Compare]\<rparr>)"
  using assms by (simp add: setLocus.simps [of w inc c])

lemma setLocus_fetch_step:
  assumes "locus c = Some cur" and "locus_compare w cur inc = FETCH"
    and "locus_get w (fetched c) (Some cur) = Inr l"
  shows "setLocus w inc c =
           setLocus w l (c\<lparr>fetched := Suc (fetched c), trace := trace c @ [Compare, Get]\<rparr>)"
  using assms by (simp add: setLocus.simps [of w inc c])

lemma setLocus_fetch_failure:
  assumes "locus c = Some cur" and "locus_compare w cur inc = FETCH"
    and "locus_get w (fetched c) (Some cur) = Inl e"
  shows "setLocus w inc c =
           Some (Rejected e, c\<lparr>fetched := Suc (fetched c), trace := trace c @ [Compare, Get]\<rparr>)"
  using assms by (simp add: setLocus.simps [of w inc c])

lemma setLocus_returns:
  assumes "locus c = Some cur" and "locus_get w (fetched c + n) (Some cur) = Inr l"
    and "locus_compare w cur l \<noteq> FETCH"
  shows "\<exists>y. setLocus w inc c = Some y"
  using assms
proof (induction n arbitrary: c inc)
  case 0
  show ?case
  proof (cases "locus_compare w cur inc = FETCH")
    case False
    with setLocus_accept [OF "0.prems"(1)] show ?thesis by blast
  next
    case True
    let ?c1 = "c\<lparr>fetched := Suc (fetched c), trace := trace c @ [Compare, Get]\<rparr>"
    from "0.prems" have g: "locus_get w (fetched c) (Some cur) = Inr l" by simp
    have "locus ?c1 = Some cur" using "0.prems"(1) by simp
    from setLocus_accept [OF this "0.prems"(3)]
    obtain c' where "setLocus w l ?c1 = Some (Resolved, c')" by blast
    with setLocus_fetch_step [OF "0.prems"(1) True g] show ?thesis by simp
  qed
next
  case (Suc n)
  show ?case
  proof (cases "locus_compare w cur inc = FETCH")
    case False
    with setLocus_accept [OF Suc.prems(1)] show ?thesis by blast
  next
    case True
    let ?c1 = "c\<lparr>fetched := Suc (fetched c), trace := trace c @ [Compare, Get]\<rparr>"
    show ?thesis
    proof (cases "locus_get w (fetched c) (Some cur)")
      case (Inl e)
      with setLocus_fetch_failure [OF Suc.prems(1) True] show ?thesis by simp
    next
      case (Inr l')
      have 1: "locus ?c1 = Some cur" using Suc.prems(1) by simp
      have 2: "locus_get w (fetched ?c1 + n) (Some cur) = Inr l" using Suc.prems(2) by simp
      from Suc.IH [OF 1 2 Suc.prems(3)] obtain y where "setLocus w l' ?c1 = Some y" by blast
      with setLocus_fetch_step [OF Suc.prems(1) True Inr] show ?thesis by simp
    qed
  qed
qed

lemma setLocus_depth:
  assumes "locus c = Some cur" and "locus_compare w cur inc = FETCH"
    and "\<forall>i<k. \<exists>l'. locus_get w (fetched c + i) (Some cur) = Inr l' \<and> locus_compare w cur l' = FETCH"
    and "locus_get w (fetched c + k) (Some cur) = Inr l"
    and "locus_compare w cur l \<noteq> FETCH"
  shows "\<exists>c'. setLocus w inc c = Some (Resolved, c') \<and> fetched c' = fetched c + k + 1
           \<and> locus c' = (if locus_compare w cur l = USE_INCOMING then Some l else Some cur)"
  using assms
proof (induction k arbitrary: c inc)
  case 0
  let ?c1 = "c\<lparr>fetched := Suc (fetched c), trace := trace c @ [Compare, Get]\<rparr>"
  from "0.prems" have g: "locus_get w (fetched c) (Some cur) = Inr l" by simp
  have "locus ?c1 = Some cur" using "0.prems"(1) by simp
  from setLocus_accept [OF this "0.prems"(5)]
  obtain c' where "setLocus w l ?c1 = Some (Resolved, c')" "fetched c' = fetched ?c1"
    "locus c' = (if locus_compare w cur l = USE_INCOMING then Some l else Some cur)"
    by blast
  with setLocus_fetch_step [OF "0.prems"(1,2) g] show ?case by simp
next
  case (Suc k)
  let ?c1 = "c\<lparr>fetched := Suc (fetched c), trace := trace c @ [Compare, Get]\<rparr>"
  from Suc.prems(3) obtain l' where g: "locus_get w (fetched c) (Some cur) = Inr l'"
    and f: "locus_compare w cur l' = FETCH"
    by (metis add.right_neutral zero_less_Suc)
  have 1: "locus ?c1 = Some cur" using Suc.prems(1) by simp
  have 3: "\<forall>i<k. \<exists>l'. locus_get w (fetched ?c1 + i) (Some cur) = Inr l' \<and> locus_compare w cur l' = FETCH"
  proof (intro allI impI)
    fix i assume "i < k"
    then have "Suc i < Suc k" by simp
    with Suc.prems(3) have "\<exists>l'. locus_get w (fetched c + Suc i) (Some cur) = Inr l'
        \<and> locus_compare w cur l' = FETCH" by blast
    then show "\<exists>l'. locus_get w (fetched ?c1 + i) (Some cur) = Inr l' \<and> locus_compare w cur l' = FETCH"
      by simp
  qed
  have 4: "locus_get w (fetched ?c1 + k) (Some cur) = Inr l" using Suc.prems(4) by simp
  from Suc.IH [OF 1 f 3 4 Suc.prems(5)]
  obtain c' where "setLocus w l' ?c1 = Some (Resolved, c')" "fetched c' = fetched ?c1 + k + 1"
    "locus c' = (if locus_compare w cur l = USE_INCOMING then Some l else Some cur)"
    by blast
  with setLocus_fetch_step [OF Suc.prems(1,2) g] show ?case by simp
qed

text \<open>
  C6. When the comparator answers \<^verbatim>\<open>FETCH\<close>, the session is fetched again and the
  fetched copy is reconciled in turn. The recursion has no cap: if the first \<open>k\<close>
  fetched copies are again classified \<^verbatim>\<open>FETCH\<close> and the next one is not, the
  reconciliation returns after exactly \<open>k + 1\<close> fetches, for every \<open>k\<close>, with that
  copy adopted or ignored as the comparator says. And it returns whenever some fetch,
  however late, yields a snapshot that the comparator does not classify \<^verbatim>\<open>FETCH\<close>.
\<close>

theorem setLocus_refetch_terminates:
  assumes "locus c = Some cur"
    and "locus_get w (fetched c + n) (Some cur) = Inr l"
    and "locus_compare w cur l \<noteq> FETCH"
  shows "(\<exists>y. setLocus w inc c = Some y)
    \<and> (locus_compare w cur inc = FETCH
        \<and> (\<forall>i<n. \<exists>l'. locus_get w (fetched c + i) (Some cur) = Inr l' \<and> locus_compare w cur l' = FETCH)
       \<longrightarrow> (\<exists>c'. setLocus w inc c = Some (Resolved, c') \<and> fetched c' = fetched c + n + 1
             \<and> locus c' = (if locus_compare w cur l = USE_INCOMING then Some l else Some cur)))"
  using setLocus_returns [OF assms] setLocus_depth [OF assms(1) _ _ assms(2,3)] by blast

text \<open>
  The call holds sequence 1 and receives sequence 5. The first two copies fetched leave
  a gap as well; the third is adopted, after three fetches.
\<close>

theorem setLocus_refetch_terminates_witness:
  "\<exists>c'. setLocus (sample_world by_sequence stale_twice) (sample_locus 5 None)
            (call_with (sample_locus 1 None)) = Some (Resolved, c')
        \<and> fetched c' = 3 \<and> locus c' = Some (sample_locus 2 None)"
proof -
  let ?w = "sample_world by_sequence stale_twice"
  let ?c = "call_with (sample_locus 1 None)"
  have 1: "locus ?c = Some (sample_locus 1 None)"
    by (simp add: call_with_def)
  have 2: "locus_get ?w (fetched ?c + 2) (Some (sample_locus 1 None)) = Inr (sample_locus 2 None)"
    by (simp add: sample_world_def stale_twice_def call_with_def new_call_def)
  have 3: "locus_compare ?w (sample_locus 1 None) (sample_locus 2 None) = USE_INCOMING"
    by (simp add: sample_world_def by_sequence_def sample_locus_def)
  have 4: "locus_compare ?w (sample_locus 1 None) (sample_locus 5 None) = FETCH"
    by (simp add: sample_world_def by_sequence_def sample_locus_def)
  have 5: "\<forall>i<2. \<exists>l'. locus_get ?w (fetched ?c + i) (Some (sample_locus 1 None)) = Inr l'
             \<and> locus_compare ?w (sample_locus 1 None) l' = FETCH"
    by (simp add: sample_world_def stale_twice_def by_sequence_def sample_locus_def
          call_with_def new_call_def)
  have 6: "fetched ?c = 0"
    by (simp add: call_with_def new_call_def)
  from setLocus_refetch_terminates [OF 1 2, of "sample_locus 5 None"] 3 4 5 6
  show ?thesis by (simp add: numeral_3_eq_3)
qed

section \<open>Hanging up\<close>

lemma setLocus_trace:
  assumes "setLocus w inc c = Some y"
  shows "\<exists>new. trace (snd y) = trace c @ new \<and> set new \<subseteq> {Compare, Get}"
proof (rule setLocus.raw_induct
    [where P = "\<lambda>w inc c y. \<exists>new. trace (snd y) = trace c @ new \<and> set new \<subseteq> {Compare, Get}",
     OF _ assms], goal_cases)
  case (1 f w inc c y)
  show ?case
  proof (cases "locus c")
    case None
    with 1(2) show ?thesis by auto
  next
    case (Some cur)
    show ?thesis
    proof (cases "locus_compare w cur inc")
      case USE_INCOMING
      with Some 1(2) show ?thesis by (auto split: option.splits)
    next
      case OTHER
      with Some 1(2) show ?thesis by auto
    next
      case FETCH
      show ?thesis
      proof (cases "locus_get w (fetched c) (Some cur)")
        case (Inl e)
        with Some FETCH 1(2) show ?thesis by auto
      next
        case (Inr l)
        with Some FETCH 1(2)
        have "f w l (c\<lparr>fetched := Suc (fetched c), trace := trace c @ [Compare, Get]\<rparr>) = Some y"
          by simp
        from 1(1) [OF this] obtain new
          where "trace (snd y) = (trace c @ [Compare, Get]) @ new" "set new \<subseteq> {Compare, Get}"
          by auto
        then have "trace (snd y) = trace c @ ([Compare, Get] @ new)
            \<and> set ([Compare, Get] @ new) \<subseteq> {Compare, Get}" by simp
        then show ?thesis by blast
      qed
    qed
  qed
qed

lemma internal_hangup_trace:
  assumes "internal_hangup w c = Some (r, c')"
  shows "\<exists>rest. trace c' = trace c @ Leave # rest \<and> Leave \<notin> set rest"
proof (cases "locus_leave w (locus c)")
  case (Inl e)
  with assms show ?thesis by (auto simp: internal_hangup_def)
next
  case (Inr l)
  let ?c1 = "c\<lparr>locusLeaveInFlight := True, trace := trace c @ [Leave]\<rparr>"
  from assms Inr obtain y where y: "setLocus w l ?c1 = Some y"
    by (auto simp: internal_hangup_def split: option.splits)
  from setLocus_trace [OF y] obtain new
    where new: "trace (snd y) = trace c @ Leave # new" "set new \<subseteq> {Compare, Get}" by auto
  from assms Inr y new show ?thesis
    by (cases y) (auto simp: internal_hangup_def split: outcome.splits)
qed

lemma hangup_leaves:
  assumes "locus c = Some l"
    and "\<not> (direction w c = ''in'' \<and> \<not> joinedOnThisDevice w c)"
  shows "hangup w c = internal_hangup w (c\<lparr>trace := trace c @ [MediaEnd]\<rparr>)"
  using assms by (auto simp: hangup_def Let_def)

text \<open>
  C3, as the code has it. On an inbound call that this device has not joined, hangup
  is \<^verbatim>\<open>reject\<close>. On every other call with a session, hangup stops local media and
  then issues the leave round trip, before anything else: when the leave fails, the
  hangup is rejected with that failure, media stopped; when it succeeds, all that
  follows is the reconciliation of its answer and the teardown, from a call whose
  effects are \<open>MediaEnd\<close>, then \<open>Leave\<close>. So the effects of a hangup that returns start
  with \<open>MediaEnd\<close>, \<open>Leave\<close> and hold no other \<open>Leave\<close>; and the hangup does return
  whenever the leave fails, or its answer is not classified \<^verbatim>\<open>FETCH\<close> by the
  comparator, or some fetch of the reconciliation, however late, yields a snapshot that
  is not.
\<close>

theorem hangup_media_before_leave:
  assumes "locus c = Some l"
  shows "(direction w c = ''in'' \<and> \<not> joinedOnThisDevice w c \<longrightarrow> hangup w c = reject w c)
    \<and> (\<not> (direction w c = ''in'' \<and> \<not> joinedOnThisDevice w c) \<longrightarrow>
         (\<forall>e. locus_leave w (Some l) = Inl e \<longrightarrow>
            hangup w c =
              Some (Rejected e,
                c\<lparr>locusLeaveInFlight := True, trace := trace c @ [MediaEnd, Leave]\<rparr>))
         \<and> (\<forall>l'. locus_leave w (Some l) = Inr l' \<longrightarrow>
              hangup w c =
                (case setLocus w l'
                        (c\<lparr>locusLeaveInFlight := True, trace := trace c @ [MediaEnd, Leave]\<rparr>) of
                   None \<Rightarrow> None
                 | Some (Resolved, c3) \<Rightarrow>
                     Some (Resolved,
                       c3\<lparr>locusLeaveInFlight := False,
                          trace := trace c3 @ [StopListening, Off]\<rparr>)
                 | Some (r, c3) \<Rightarrow> Some (r, c3)))
         \<and> (\<forall>r c'. hangup w c = Some (r, c') \<longrightarrow>
              (\<exists>rest. trace c' = trace c @ MediaEnd # Leave # rest \<and> Leave \<notin> set rest))
         \<and> (\<forall>l'. locus_leave w (Some l) = Inr l' \<and> locus_compare w l l' \<noteq> FETCH \<longrightarrow>
              (\<exists>c'. hangup w c = Some (Resolved, c')))
         \<and> (\<forall>n l''. locus_get w (fetched c + n) (Some l) = Inr l''
                \<and> locus_compare w l l'' \<noteq> FETCH \<longrightarrow> (\<exists>y. hangup w c = Some y)))"
proof (cases "direction w c = ''in'' \<and> \<not> joinedOnThisDevice w c")
  case True
  then show ?thesis by (simp add: hangup_def)
next
  case False
  let ?c1 = "c\<lparr>trace := trace c @ [MediaEnd]\<rparr>"
  let ?c2 = "c\<lparr>locusLeaveInFlight := True, trace := trace c @ [MediaEnd, Leave]\<rparr>"
  note h = hangup_leaves [OF assms False]
  have a: "hangup w c = Some (Rejected e, ?c2)" if "locus_leave w (Some l) = Inl e" for e
    using that assms h by (simp add: internal_hangup_def)
  have b: "hangup w c =
      (case setLocus w l' ?c2 of
         None \<Rightarrow> None
       | Some (Resolved, c3) \<Rightarrow>
           Some (Resolved,
             c3\<lparr>locusLeaveInFlight := False, trace := trace c3 @ [StopListening, Off]\<rparr>)
       | Some (r, c3) \<Rightarrow> Some (r, c3))"
    if "locus_leave w (Some l) = Inr l'" for l'
    using that assms h by (simp add: internal_hangup_def)
  have c: "\<exists>rest. trace c' = trace c @ MediaEnd # Leave # rest \<and> Leave \<notin> set rest"
    if "hangup w c = Some (r, c')" for r c'
    using internal_hangup_trace [of w ?c1 r c'] that h by auto
  have d: "\<exists>y. hangup w c = Some y"
    if g: "locus_get w (fetched c + n) (Some l) = Inr l''" "locus_compare w l l'' \<noteq> FETCH"
    for n l''
  proof (cases "locus_leave w (Some l)")
    case (Inl e)
    with a show ?thesis by simp
  next
    case (Inr l')
    have "locus ?c2 = Some l" using assms by simp
    moreover have "locus_get w (fetched ?c2 + n) (Some l) = Inr l''" using g(1) by simp
    ultimately obtain y where "setLocus w l' ?c2 = Some y"
      using setLocus_returns [of ?c2 l w n l'' l'] g(2) by blast
    with b [OF Inr] show ?thesis
      by (cases y) (auto split: outcome.splits)
  qed
  have e: "\<exists>c'. hangup w c = Some (Resolved, c')"
    if "locus_leave w (Some l) = Inr l'" "locus_compare w l l' \<noteq> FETCH" for l'
  proof -
    have "locus ?c2 = Some l" using assms by simp
    from setLocus_accept [OF this that(2)]
    obtain c3 where "setLocus w l' ?c2 = Some (Resolved, c3)" by blast
    with b [OF that(1)] show ?thesis by simp
  qed
  from False a b c d e show ?thesis by blast
qed

text \<open>An outbound call with a session, and a session service whose leave fails.\<close>

theorem hangup_media_before_leave_witness:
  "hangup (sample_world by_sequence stale_twice) (call_with (sample_locus 1 None)) =
     Some (Rejected (Error ''leave failed''),
       (call_with (sample_locus 1 None))\<lparr>locusLeaveInFlight := True, trace := [MediaEnd, Leave]\<rparr>)"
  using hangup_media_before_leave
    [of "call_with (sample_locus 1 None)" "sample_locus 1 None"
        "sample_world by_sequence stale_twice"]
  by (simp add: call_with_def new_call_def sample_world_def direction_def)

text \<open>
  The claim as stated fails on an inbound call that this device has not joined: the
  call has a session, the hangup declines, reconciles and tears down, and resolves; the
  media was never stopped.
\<close>

theorem hangup_inbound_counterexample:
  "locus (call_with (sample_locus 1 None)) = Some (sample_locus 1 None)
   \<and> direction inbound_world (call_with (sample_locus 1 None)) = ''in''
   \<and> \<not> joinedOnThisDevice inbound_world (call_with (sample_locus 1 None))
   \<and> hangup inbound_world (call_with (sample_locus 1 None)) =
       Some (Resolved,
         (call_with (sample_locus 2 None))\<lparr>trace := [Decline, Compare, StopListening, Off]\<rparr>)
   \<and> MediaEnd \<notin> set [Decline, Compare, StopListening, Off]"
proof -
  let ?c = "call_with (sample_locus 1 None)"
  have 1: "direction inbound_world ?c = ''in''" "\<not> joinedOnThisDevice inbound_world ?c"
    "locus ?c = Some (sample_locus 1 None)"
    by (simp_all add: direction_def joinedOnThisDevice_def inbound_world_def call_with_def)
  have 2: "setLocus inbound_world (sample_locus 2 None) (?c\<lparr>trace := trace ?c @ [Decline]\<rparr>)
      = Some (Resolved, (call_with (sample_locus 2 None))\<lparr>trace := [Decline, Compare]\<rparr>)"
    by (subst setLocus_adopt [where cur = "sample_locus 1 None"])
       (simp_all add: inbound_world_def sample_world_def by_sequence_def sample_locus_def
         call_with_def new_call_def device_of_def sample_participant_def)
  have "hangup inbound_world ?c = reject inbound_world ?c"
    using 1 by (simp add: hangup_def)
  also have "\<dots> = Some (Resolved,
         (call_with (sample_locus 2 None))\<lparr>trace := [Decline, Compare, StopListening, Off]\<rparr>)"
    using 1 2 by (simp add: reject_def inbound_world_def call_with_def)
  finally show ?thesis using 1 by simp
qed

section \<open>Hanging up while a join is outstanding\<close>

lemma join_begin_flag: "locusJoinInFlight (join_begin w t opts c) = locusJoinInFlight c"
  by (simp add: join_begin_def join_correlationId_def join_media_frame Let_def)

lemma join_request_flag: "locusJoinInFlight (join_request m c) = locusJoinInFlight c"
  by (simp add: join_request_def)

lemma hangup_waits_when_flag:
  "locus c = None \<Longrightarrow> locusJoinInFlight c \<Longrightarrow>
     hangup w c = Some (AwaitLocusThenHangup, c\<lparr>trace := trace c @ [MediaEnd]\<rparr>)"
  by (simp add: hangup_def direction_def joinedOnThisDevice_def)

text \<open>
  C4. A hangup on a call with no session and a join round trip outstanding should wait
  for the join's session. \<^verbatim>\<open>hangup\<close> waits when \<^verbatim>\<open>locusJoinInFlight\<close> is set
  (\<open>hangup_waits_when_flag\<close>), but \<^verbatim>\<open>_join\<close> never sets the flag
  (\<open>join_begin_flag\<close>, \<open>join_request_flag\<close>), it only clears it. So on a new call
  whose join request is outstanding, hangup tears the call down at once.
\<close>

theorem hangup_while_join_outstanding:
  "locus dialling = None
   \<and> trace dialling = [CreateOffer, LocusRequest ''create'']
   \<and> locusJoinInFlight dialling = False
   \<and> hangup (sample_world by_sequence stale_twice) dialling =
       Some (Resolved, dialling\<lparr>trace := trace dialling @ [MediaEnd, StopListening, Off]\<rparr>)"
  by (simp add: dialling_def join_request_def join_begin_def join_correlationId_def
      join_media_def no_options_def new_call_def sample_world_def hangup_def direction_def
      joinedOnThisDevice_def Let_def truthy_def target_correlationId_def facingMode_exact_def
      truthy_constraint_def)

section \<open>Answering without a session\<close>

text \<open>
  C10. On a call whose session is still null, \<^verbatim>\<open>answer\<close> resolves at once: no
  round trip is issued and nothing of the call changes, whatever the state parsers
  would say of the call's direction.
\<close>

theorem answer_without_session:
  "locus c = None \<Longrightarrow> answer w opts c = Some (Resolved, c)"
  by (simp add: answer_def)

theorem answer_without_session_witness:
  "answer (sample_world by_sequence stale_twice) no_options new_call = Some (Resolved, new_call)"
  using answer_without_session [of new_call "sample_world by_sequence stale_twice" no_options]
  by (simp add: new_call_def)

section \<open>Toggling the facing mode\<close>

text \<open>
  C8. On a call without a video constraint, or whose facing mode is neither user nor
  environment, \<^verbatim>\<open>toggleFacingMode\<close> throws before it returns a promise; the call is
  unchanged, so no stream was requested and none swapped in.
\<close>

theorem toggleFacingMode_invalid:
  "(\<not> truthy_constraint (videoConstraint (media c)) \<longrightarrow>
      toggleFacingMode w c = (Thrown (Error ''Cannot toggle facignMode on audio-only call''), c))
   \<and> (\<not> truthy_constraint (videoConstraint (media c))
        \<or> (facingMode c \<noteq> Some ''user'' \<and> facingMode c \<noteq> Some ''environment'') \<longrightarrow>
       (\<exists>msg. toggleFacingMode w c = (Thrown (Error msg), c)))"
  by (auto simp: toggleFacingMode_def Let_def)

theorem toggleFacingMode_invalid_witness:
  "toggleFacingMode (sample_world by_sequence stale_twice) new_call =
     (Thrown (Error ''Cannot toggle facignMode on audio-only call''), new_call)"
  using toggleFacingMode_invalid [of new_call "sample_world by_sequence stale_twice"]
  by (simp add: new_call_def sample_media_def truthy_constraint_def)

section \<open>The correlation id\<close>

lemma setLocus_reconciled:
  assumes "setLocus w inc c = Some y"
  shows "\<forall>cur. locus c = Some cur \<longrightarrow> reconciled w cur inc c y"
proof (rule setLocus.raw_induct
    [where P = "\<lambda>w inc c y. \<forall>cur. locus c = Some cur \<longrightarrow> reconciled w cur inc c y",
     OF _ assms], goal_cases)
  case (1 f w inc c y)
  show ?case
  proof (intro allI impI)
    fix cur assume cur: "locus c = Some cur"
    show "reconciled w cur inc c y"
    proof (cases "locus_compare w cur inc")
      case USE_INCOMING
      with cur 1(2) show ?thesis
        by (auto simp: reconciled_def last_reconciled_def split: option.splits)
    next
      case OTHER
      with cur 1(2) show ?thesis by (auto simp: reconciled_def last_reconciled_def)
    next
      case FETCH
      let ?c1 = "c\<lparr>fetched := Suc (fetched c), trace := trace c @ [Compare, Get]\<rparr>"
      show ?thesis
      proof (cases "locus_get w (fetched c) (Some cur)")
        case (Inl e)
        with cur FETCH 1(2) show ?thesis by (auto simp: reconciled_def last_reconciled_def)
      next
        case (Inr l)
        with cur FETCH 1(2) have "f w l ?c1 = Some y" by simp
        from 1(1) [OF this] cur have r: "reconciled w cur l ?c1 y" by simp
        then have le: "Suc (fetched c) \<le> fetched (snd y)" by (simp add: reconciled_def)
        have "last_reconciled w cur inc c (snd y) = last_reconciled w cur l ?c1 (snd y)"
          using le Inr by (auto simp: last_reconciled_def)
        with r le show ?thesis
          by (auto simp: reconciled_def split: option.splits action.splits)
      qed
    qed
  qed
qed


text \<open>
  C5, as the code has it. The correlation id is not set once only. A reconciliation on
  a call with a session changes it in exactly one case: the snapshot judged last (the
  incoming one, or after fetches the copy fetched last) is adopted, the comparator
  answering \<^verbatim>\<open>USE_INCOMING\<close>, and holds a record of this device; then the id becomes
  that record's. When that snapshot is ignored, or holds no such record, or the last
  fetch failed, and when the call had no session, the id keeps its value. And before
  its round trip \<^verbatim>\<open>_join\<close> (lines 842 to 848), with a uuid that is not empty,
  assigns the fresh uuid whenever its target carries no correlation id, also when the
  call had one; otherwise it keeps the call's id, or takes the target's when the call
  has none.
\<close>

theorem correlationId_reassigned:
  "(setLocus w inc c = Some (r, c') \<and> locus c = Some cur \<longrightarrow>
      (case last_reconciled w cur inc c c' of
         None \<Rightarrow> (\<exists>e. r = Rejected e) \<and> locus c' = Some cur \<and> correlationId c' = correlationId c
       | Some l \<Rightarrow>
           r = Resolved
           \<and> (case locus_compare w cur l of
                USE_INCOMING \<Rightarrow>
                  locus c' = Some l
                  \<and> correlationId c' =
                      (case device_of w l of
                         None \<Rightarrow> correlationId c
                       | Some d \<Rightarrow> device_correlationId d)
              | FETCH \<Rightarrow> False
              | OTHER \<Rightarrow> locus c' = Some cur \<and> correlationId c' = correlationId c)))
   \<and> (setLocus w inc c = Some (r, c') \<and> locus c = None \<longrightarrow>
        r = Resolved \<and> locus c' = Some inc \<and> correlationId c' = correlationId c)
   \<and> (locus c = Some cur \<and> locus_compare w cur inc = USE_INCOMING \<and> device_of w inc = Some d \<longrightarrow>
        (\<exists>c'. setLocus w inc c = Some (Resolved, c') \<and> correlationId c' = device_correlationId d))
   \<and> (uuid_v4 w \<noteq> [] \<longrightarrow>
        correlationId (join_begin w t opts c) =
          (if \<not> truthy (target_correlationId t) then Some (uuid_v4 w)
           else if truthy (correlationId c) then correlationId c
           else target_correlationId t))"
proof -
  have a: "case last_reconciled w cur inc c c' of
         None \<Rightarrow> (\<exists>e. r = Rejected e) \<and> locus c' = Some cur \<and> correlationId c' = correlationId c
       | Some l \<Rightarrow>
           r = Resolved
           \<and> (case locus_compare w cur l of
                USE_INCOMING \<Rightarrow>
                  locus c' = Some l
                  \<and> correlationId c' =
                      (case device_of w l of
                         None \<Rightarrow> correlationId c
                       | Some d \<Rightarrow> device_correlationId d)
              | FETCH \<Rightarrow> False
              | OTHER \<Rightarrow> locus c' = Some cur \<and> correlationId c' = correlationId c)"
    if "setLocus w inc c = Some (r, c')" "locus c = Some cur"
    using setLocus_reconciled [OF that(1)] that(2)
    by (auto simp: reconciled_def split: option.splits action.splits)
  have a': "r = Resolved \<and> locus c' = Some inc \<and> correlationId c' = correlationId c"
    if "setLocus w inc c = Some (r, c')" "locus c = None"
    using that by (auto simp: setLocus.simps [of w inc c])
  have b: "\<exists>c'. setLocus w inc c = Some (Resolved, c') \<and> correlationId c' = device_correlationId d"
    if "locus c = Some cur" "locus_compare w cur inc = USE_INCOMING" "device_of w inc = Some d"
    using that by (simp add: setLocus.simps [of w inc c])
  have c: "correlationId (join_begin w t opts c) =
          (if \<not> truthy (target_correlationId t) then Some (uuid_v4 w)
           else if truthy (correlationId c) then correlationId c
           else target_correlationId t)"
    if "uuid_v4 w \<noteq> []"
    using that
    by (simp add: join_begin_def join_correlationId_def join_media_frame Let_def truthy_def)
  from a a' b c show ?thesis by blast
qed

theorem correlationId_reassigned_witness:
  "\<exists>c'. setLocus (sample_world by_sequence stale_twice) (sample_locus 2 (Some ''uuid-9''))
            joined_call = Some (Resolved, c')
        \<and> correlationId c' = Some ''uuid-9''"
proof -
  let ?w = "sample_world by_sequence stale_twice"
  let ?d = "\<lparr>device_url = ''device/1'', device_correlationId = Some ''uuid-9'',
             device_remoteSdp = Some ''sdp''\<rparr>"
  have 1: "locus joined_call = Some (sample_locus 1 (Some ''uuid-0''))"
    by (simp add: joined_call_def call_with_def)
  have 2: "locus_compare ?w (sample_locus 1 (Some ''uuid-0'')) (sample_locus 2 (Some ''uuid-9''))
             = USE_INCOMING"
    by (simp add: sample_world_def by_sequence_def sample_locus_def)
  have 3: "device_of ?w (sample_locus 2 (Some ''uuid-9'')) = Some ?d"
    by (simp add: device_of_def sample_world_def sample_locus_def sample_participant_def)
  from correlationId_reassigned
    [of ?w "sample_locus 2 (Some ''uuid-9'')" joined_call _ _
        "sample_locus 1 (Some ''uuid-0'')" ?d] 1 2 3
  show ?thesis by simp
qed

text \<open>
  The claim as stated fails: a call whose correlation id is uuid-0 adopts a snapshot
  whose record of this device says uuid-9, and has uuid-9 afterwards; and a join on that
  call, whose target carries no correlation id, assigns the fresh uuid-1.
\<close>

theorem correlationId_set_once_counterexample:
  "correlationId joined_call = Some ''uuid-0''
   \<and> setLocus (sample_world by_sequence stale_twice) (sample_locus 2 (Some ''uuid-9'')) joined_call
       = Some (Resolved,
           joined_call\<lparr>locus := Some (sample_locus 2 (Some ''uuid-9'')),
             correlationId := Some ''uuid-9'', trace := [Compare]\<rparr>)
   \<and> correlationId
        (join_begin (sample_world by_sequence stale_twice)
           (Session (sample_locus 1 (Some ''uuid-0''))) no_options joined_call)
       = Some ''uuid-1''"
  by (subst setLocus.simps)
     (simp add: joined_call_def call_with_def new_call_def
      sample_world_def by_sequence_def sample_locus_def device_of_def sample_participant_def
      join_begin_def join_correlationId_def join_media_def no_options_def Let_def truthy_def
      target_correlationId_def facingMode_exact_def truthy_constraint_def)

section \<open>Polling after a media update\<close>

lemma expected_media: "media c1 = media c \<Longrightarrow> expected c1 l = expected c l"
  by (simp add: expected_def split: option.splits)

lemma body_result:
  assumes "fetchExpectedLocus_body w c = (res, c')"
  shows "fetched c' = Suc (fetched c) \<and> media c' = media c \<and> locus c' = locus c
     \<and> (\<forall>l. res = Inr l \<longrightarrow> locus_get w (fetched c) (locus c) = Inr l \<and> expected c l)"
  using assms
  by (auto simp: fetchExpectedLocus_body_def expected_def Let_def
      split: sum.splits option.splits if_splits)

lemma retry_result:
  assumes "retry n (fetchExpectedLocus_body w) c = (res, c')"
  shows "media c' = media c \<and> locus c' = locus c
     \<and> fetched c < fetched c' \<and> fetched c' \<le> fetched c + n + 1
     \<and> (\<forall>l. res = Inr l \<longrightarrow>
           locus_get w (fetched c' - 1) (locus c) = Inr l \<and> expected c l)
     \<and> ((\<exists>e. res = Inl e) \<longrightarrow> fetched c' = fetched c + n + 1)"
  using assms
proof (induction n arbitrary: c)
  case 0
  with body_result [of w c res c'] show ?case by (cases res) auto
next
  case (Suc n)
  obtain r1 c1 where b: "fetchExpectedLocus_body w c = (r1, c1)" by (cases "fetchExpectedLocus_body w c")
  note br = body_result [OF b]
  show ?case
  proof (cases r1)
    case (Inr l)
    with Suc.prems b br show ?thesis by auto
  next
    case (Inl e)
    with Suc.prems b have "retry n (fetchExpectedLocus_body w) c1 = (res, c')" by simp
    from Suc.IH [OF this] br expected_media [of c1 c] show ?thesis by auto
  qed
qed

lemma boolToStatus_table:
  "boolToStatus True True = Inr ''sendrecv'' \<and> boolToStatus True False = Inr ''sendonly''
   \<and> boolToStatus False True = Inr ''recvonly'' \<and> boolToStatus False False = Inr ''inactive''"
  by (simp add: boolToStatus_def)

text \<open>
  C7, as the code has it. \<^verbatim>\<open>_fetchExpectedLocus\<close> returns a snapshot only if its
  reported audio and video status strings, once in lower case, are the strings expected
  from the media adapter's flags by the mapping (sending, receiving) to sendrecv,
  sendonly, recvonly, inactive. A mismatch is an error like a failed fetch: the fetch is
  tried again a bounded small number of times, three fetches at most in all, and a
  failure is returned only after three fetches failed.
\<close>

theorem fetchExpectedLocus_expected:
  assumes "fetchExpectedLocus w c = (res, c')"
  shows "(\<forall>l. res = Inr l \<longrightarrow>
            (\<exists>p. self l = Some p
               \<and> Inr (toLowerCase (audioStatus p)) =
                   boolToStatus (truthy_constraint (audio (media c))) (offerToReceiveAudio (media c))
               \<and> Inr (toLowerCase (videoStatus p)) =
                   boolToStatus (truthy_constraint (video (media c))) (offerToReceiveVideo (media c))))
    \<and> fetched c < fetched c' \<and> fetched c' \<le> fetched c + 3
    \<and> ((\<exists>e. res = Inl e) \<longrightarrow> fetched c' = fetched c + 3)
    \<and> boolToStatus True True = Inr ''sendrecv'' \<and> boolToStatus True False = Inr ''sendonly''
    \<and> boolToStatus False True = Inr ''recvonly'' \<and> boolToStatus False False = Inr ''inactive''"
proof -
  from assms have "retry 2 (fetchExpectedLocus_body w) c = (res, c')"
    by (simp add: fetchExpectedLocus_def)
  from retry_result [OF this] boolToStatus_table show ?thesis
    by (auto simp: expected_def split: option.splits)
qed

text \<open>
  The first copy still reports video as SENDRECV and is refused; the second reports
  RECVONLY and is returned, after two fetches.
\<close>

theorem fetchExpectedLocus_expected_witness:
  "fetchExpectedLocus (sample_world by_sequence late_status) receiving_video_only =
     (Inr (status_locus ''SENDRECV'' ''RECVONLY''),
      receiving_video_only\<lparr>fetched := 2, trace := [Get, Get]\<rparr>)
   \<and> toLowerCase ''RECVONLY'' = ''recvonly''"
proof -
  have e: "fetchExpectedLocus (sample_world by_sequence late_status) receiving_video_only =
     (Inr (status_locus ''SENDRECV'' ''RECVONLY''),
      receiving_video_only\<lparr>fetched := 2, trace := [Get, Get]\<rparr>)"
    by (simp add: fetchExpectedLocus_def numeral_2_eq_2 fetchExpectedLocus_body_def
        sample_world_def late_status_def receiving_video_only_def call_with_def new_call_def
        sample_media_def status_locus_def boolToStatus_def truthy_constraint_def
        toLowerCase_def lower_char_def Let_def)
  from fetchExpectedLocus_expected [OF e] e show ?thesis
    by (simp add: toLowerCase_def lower_char_def)
qed

text \<open>
  The claim as stated fails: the snapshot returned reports the video status RECVONLY,
  which is not the expected string recvonly.
\<close>

theorem fetchExpectedLocus_strings_counterexample:
  "fst (fetchExpectedLocus (sample_world by_sequence late_status) receiving_video_only)
     = Inr (status_locus ''SENDRECV'' ''RECVONLY'')
   \<and> map_option videoStatus (self (status_locus ''SENDRECV'' ''RECVONLY'')) = Some ''RECVONLY''
   \<and> boolToStatus (truthy_constraint (video (media receiving_video_only)))
        (offerToReceiveVideo (media receiving_video_only)) = Inr ''recvonly''
   \<and> ''RECVONLY'' \<noteq> ''recvonly''"
  by (simp add: fetchExpectedLocus_def numeral_2_eq_2 fetchExpectedLocus_body_def
        sample_world_def late_status_def receiving_video_only_def call_with_def new_call_def
        sample_media_def status_locus_def boolToStatus_def truthy_constraint_def
        toLowerCase_def lower_char_def Let_def)

section \<open>Reconciling the same snapshot twice\<close>

lemma held_fields:
  assumes "held c2 = held c1"
  shows "locus c2 = locus c1" and "correlationId c2 = correlationId c1"
    and "facingMode c2 = facingMode c1" and "localMediaStream c2 = localMediaStream c1"
proof -
  have "locus (held c2) = locus (held c1)" "correlationId (held c2) = correlationId (held c1)"
    "facingMode (held c2) = facingMode (held c1)"
    "localMediaStream (held c2) = localMediaStream (held c1)"
    using assms by simp_all
  then show "locus c2 = locus c1" and "correlationId c2 = correlationId c1"
    and "facingMode c2 = facingMode c1" and "localMediaStream c2 = localMediaStream c1"
    by (simp_all add: held_def)
qed

lemma held_no_notifications:
  assumes "held c2 = held c1"
  shows "notifications w c1 c2 = []"
  using held_fields [OF assms]
  by (simp add: notifications_def status_def direction_def joinedOnThisDevice_def
      local_participant_def remote_def)

text \<open>
  C9, as the code has it. Reconciliation is idempotent when the comparator asks for no
  fetch: if it answers \<^verbatim>\<open>FETCH\<close> neither for the current session and S nor for S and
  S, then reconciling S a second time right after the first resolves, yields the same
  final session as the first application, changes no field of the call, emits no change
  notification and fetches nothing; all it does is ask the comparator once more.
\<close>

theorem setLocus_idempotent_without_fetch:
  assumes "locus c = Some cur"
    and "locus_compare w cur S \<noteq> FETCH"
    and "locus_compare w S S \<noteq> FETCH"
  shows "\<exists>c1 c2. setLocus w S c = Some (Resolved, c1) \<and> setLocus w S c1 = Some (Resolved, c2)
           \<and> locus c2 = locus c1 \<and> held c2 = held c1 \<and> notifications w c1 c2 = []
           \<and> fetched c2 = fetched c1 \<and> trace c2 = trace c1 @ [Compare]"
proof -
  have "\<exists>c1 c2. setLocus w S c = Some (Resolved, c1) \<and> setLocus w S c1 = Some (Resolved, c2)
           \<and> locus c2 = locus c1 \<and> held c2 = held c1 \<and> fetched c2 = fetched c1
           \<and> trace c2 = trace c1 @ [Compare]"
  proof (cases "locus_compare w cur S")
  case FETCH
  with assms(2) show ?thesis by simp
next
  case OTHER
  let ?c1 = "c\<lparr>trace := trace c @ [Compare]\<rparr>"
  have 1: "setLocus w S c = Some (Resolved, ?c1)"
    by (rule setLocus_ignore [OF assms(1) OTHER])
  have "locus ?c1 = Some cur" using assms(1) by simp
  from setLocus_ignore [OF this OTHER]
  have 2: "setLocus w S ?c1 = Some (Resolved, ?c1\<lparr>trace := trace ?c1 @ [Compare]\<rparr>)" .
  from 1 2 show ?thesis by (simp add: held_def)
next
  case USE_INCOMING
  define c1 where "c1 =
     (case device_of w S of
        None \<Rightarrow> c\<lparr>locus := Some S, trace := trace c @ [Compare]\<rparr>
      | Some d \<Rightarrow>
          c\<lparr>locus := Some S, correlationId := device_correlationId d,
            trace := trace c @ [Compare]\<rparr>)"
  have 1: "setLocus w S c = Some (Resolved, c1)"
    unfolding c1_def by (rule setLocus_adopt [OF assms(1) USE_INCOMING])
  have l1: "locus c1 = Some S" by (simp add: c1_def split: option.splits)
  have k1: "\<And>d. device_of w S = Some d \<Longrightarrow> correlationId c1 = device_correlationId d"
    by (simp add: c1_def)
  show ?thesis
  proof (cases "locus_compare w S S")
    case FETCH
    with assms(3) show ?thesis by simp
  next
    case OTHER
    from setLocus_ignore [OF l1 OTHER] 1 show ?thesis by (simp add: held_def)
  next
    case USE_INCOMING
    from setLocus_adopt [OF l1 USE_INCOMING] 1 l1 k1 show ?thesis
      by (cases "device_of w S") (simp_all add: held_def)
  qed
qed
  then show ?thesis using held_no_notifications by blast
qed

text \<open>
  The call holds sequence 1 and receives sequence 2 twice: adopted the first time,
  ignored the second.
\<close>

theorem setLocus_idempotent_without_fetch_witness:
  "\<exists>c1 c2. setLocus (sample_world by_sequence advancing) (sample_locus 2 None)
              (call_with (sample_locus 1 None)) = Some (Resolved, c1)
          \<and> setLocus (sample_world by_sequence advancing) (sample_locus 2 None) c1
              = Some (Resolved, c2)
          \<and> locus c2 = locus c1 \<and> held c2 = held c1
          \<and> notifications (sample_world by_sequence advancing) c1 c2 = []
          \<and> fetched c2 = fetched c1 \<and> trace c2 = trace c1 @ [Compare]"
proof -
  let ?w = "sample_world by_sequence advancing"
  have 1: "locus (call_with (sample_locus 1 None)) = Some (sample_locus 1 None)"
    by (simp add: call_with_def)
  have 2: "locus_compare ?w (sample_locus 1 None) (sample_locus 2 None) \<noteq> FETCH"
    by (simp add: sample_world_def by_sequence_def sample_locus_def)
  have 3: "locus_compare ?w (sample_locus 2 None) (sample_locus 2 None) \<noteq> FETCH"
    by (simp add: sample_world_def by_sequence_def sample_locus_def)
  from setLocus_idempotent_without_fetch [OF 1 2 3] show ?thesis .
qed

lemmas sample_defs =
  call_with_def new_call_def sample_world_def by_sequence_def sample_locus_def
  advancing_def device_of_def sample_participant_def refetched_once_def refetched_twice_def

text \<open>
  The claim as stated fails when the comparator asks for a fetch. The call holds
  sequence 1 and receives sequence 5, which leaves a gap: the first reconciliation
  fetches and adopts the service's copy, sequence 2. The same snapshot reconciled again
  still leaves a gap; the second reconciliation fetches again and adopts the copy the
  service has by then, sequence 3.
\<close>

theorem setLocus_idempotent_counterexample:
  "setLocus (sample_world by_sequence advancing) (sample_locus 5 None)
      (call_with (sample_locus 1 None)) = Some (Resolved, refetched_once)
   \<and> setLocus (sample_world by_sequence advancing) (sample_locus 5 None) refetched_once
       = Some (Resolved, refetched_twice)
   \<and> locus refetched_once = Some (sample_locus 2 None)
   \<and> locus refetched_twice = Some (sample_locus 3 None)
   \<and> locus refetched_twice \<noteq> locus refetched_once"
proof -
  let ?w = "sample_world by_sequence advancing"
  let ?c0 = "call_with (sample_locus 1 None)"
  let ?c0' = "?c0\<lparr>fetched := Suc (fetched ?c0), trace := trace ?c0 @ [Compare, Get]\<rparr>"
  let ?c1' = "refetched_once\<lparr>fetched := Suc (fetched refetched_once),
                trace := trace refetched_once @ [Compare, Get]\<rparr>"
  have "setLocus ?w (sample_locus 5 None) ?c0 = setLocus ?w (sample_locus 2 None) ?c0'"
    by (rule setLocus_fetch_step [where cur = "sample_locus 1 None"]) (simp_all add: sample_defs)
  also have "\<dots> = Some (Resolved, refetched_once)"
    by (subst setLocus_adopt [where cur = "sample_locus 1 None"]) (simp_all add: sample_defs)
  finally have 1: "setLocus ?w (sample_locus 5 None) ?c0 = Some (Resolved, refetched_once)" .
  have "setLocus ?w (sample_locus 5 None) refetched_once = setLocus ?w (sample_locus 3 None) ?c1'"
    by (rule setLocus_fetch_step [where cur = "sample_locus 2 None"]) (simp_all add: sample_defs)
  also have "\<dots> = Some (Resolved, refetched_twice)"
    by (subst setLocus_adopt [where cur = "sample_locus 2 None"]) (simp_all add: sample_defs)
  finally have 2: "setLocus ?w (sample_locus 5 None) refetched_once = Some (Resolved, refetched_twice)" .
  have 3: "locus refetched_once = Some (sample_locus 2 None)"
    "locus refetched_twice = Some (sample_locus 3 None)"
    "locus refetched_twice \<noteq> locus refetched_once"
    by (simp_all add: sample_defs)
  from 1 2 3 show ?thesis by simp
qed

end
